theory Spec2Isabelle
  imports Main "HOL-Library.Word" "HOL-Library.Sublist"
begin

section \<open>Ubuntu Image Fetcher: a model of \<^verbatim>\<open>Ubuntu_Requests.py\<close>\<close>

text \<open>
  The program fetches image URLs into a directory. Each function of the source is a HOL
  function of the same name. What the source gets from outside the repository is passed
  in: the standard library's URL parser and MIME table, the digest function, the network
  and the outcome of opening a file for writing are fields of a record \<open>world\<close>, and the
  target directory is a value that \<open>download_single_image\<close> takes and returns.
  A Python exception is a value of \<open>py_exception\<close>; a function that can raise returns
  \<open>py_exception + 'a\<close> with \<open>Inl\<close> for the raise. A \<^verbatim>\<open>print\<close> is a call that can
  raise (the console may refuse a character, or be closed); the text it writes is not
  recorded.
\<close>

subsection \<open>Exceptions\<close>

text \<open>
  The handlers of the source name three classes: \<^verbatim>\<open>IOError\<close> (line 21),
  \<^verbatim>\<open>requests.exceptions.RequestException\<close> (lines 100, 143) and \<^verbatim>\<open>Exception\<close>
  (line 145). \<open>KeyboardInterrupt\<close> stands for the exceptions that derive from
  \<^verbatim>\<open>BaseException\<close> but not from \<^verbatim>\<open>Exception\<close>, which \<^verbatim>\<open>except Exception\<close> does not
  handle. \<open>UnicodeEncodeError\<close> is what \<^verbatim>\<open>print\<close> raises on a character that the
  console cannot encode; it is of class \<^verbatim>\<open>Exception\<close>.
\<close>

datatype py_exception =
  RequestException | IOError | ValueError | UnicodeEncodeError | OtherException
  | KeyboardInterrupt

definition is_RequestException :: "py_exception \<Rightarrow> bool" where
  "is_RequestException e = (e = RequestException)"

definition is_IOError :: "py_exception \<Rightarrow> bool" where
  "is_IOError e = (e = IOError)"

definition is_Exception :: "py_exception \<Rightarrow> bool" where
  "is_Exception e = (e \<noteq> KeyboardInterrupt)"

subsection \<open>Strings of the Python runtime\<close>

text \<open>
  A \<open>string\<close> is a list of 8-bit characters: the Latin-1 code points of a header value,
  the bytes of a URL. Every delimiter and every safe character of the source is ASCII.
\<close>

type_synonym byte = "8 word"

definition py_isspace :: "char \<Rightarrow> bool" where
  \<comment> \<open>\<^verbatim>\<open>str.isspace\<close> on one code point below 256\<close>
  "py_isspace c =
     (let n = (of_char c :: nat)
      in (9 \<le> n \<and> n \<le> 13) \<or> (28 \<le> n \<and> n \<le> 32) \<or> n = 133 \<or> n = 160)"

definition strip_chars :: "(char \<Rightarrow> bool) \<Rightarrow> string \<Rightarrow> string" where
  \<comment> \<open>\<^verbatim>\<open>s.strip(chars)\<close>: drop the characters of the set at both ends\<close>
  "strip_chars p s = rev (dropWhile p (rev (dropWhile p s)))"

definition py_strip :: "string \<Rightarrow> string" where
  \<comment> \<open>\<^verbatim>\<open>s.strip()\<close>\<close>
  "py_strip s = strip_chars py_isspace s"

definition int_isspace :: "char \<Rightarrow> bool" where
  \<comment> \<open>the whitespace that \<^verbatim>\<open>int\<close> drops around a number: tab to carriage return, the
      space, and the two spaces above 127; not the separators 28 to 31\<close>
  "int_isspace c =
     (let n = (of_char c :: nat)
      in (9 \<le> n \<and> n \<le> 13) \<or> n = 32 \<or> n = 133 \<or> n = 160)"

definition is_digit :: "char \<Rightarrow> bool" where
  "is_digit c = (let n = (of_char c :: nat) in 48 \<le> n \<and> n \<le> 57)"

definition digit_value :: "char \<Rightarrow> nat" where
  "digit_value c = (of_char c :: nat) - 48"

definition digits_value :: "string \<Rightarrow> nat" where
  "digits_value s = foldl (\<lambda>acc c. 10 * acc + digit_value c) 0 s"

fun no_double_underscore :: "string \<Rightarrow> bool" where
  "no_double_underscore (a # b # rest) =
     (\<not> (a = CHR ''_'' \<and> b = CHR ''_'') \<and> no_double_underscore (b # rest))"
| "no_double_underscore _ = True"

definition valid_decimal :: "string \<Rightarrow> bool" where
  \<comment> \<open>the digit part of an integer literal: digits, single underscores between them\<close>
  "valid_decimal s =
     (s \<noteq> [] \<and> is_digit (hd s) \<and> is_digit (last s) \<and>
      list_all (\<lambda>c. is_digit c \<or> c = CHR ''_'') s \<and> no_double_underscore s)"

definition py_int :: "nat \<Rightarrow> string \<Rightarrow> int option" where
  \<comment> \<open>\<^verbatim>\<open>int(s)\<close> in base 10; \<open>None\<close> is \<^verbatim>\<open>ValueError\<close>. Surrounding whitespace is
      dropped, one sign is allowed, the digits may be grouped by single underscores.
      \<open>max_str_digits\<close> is the interpreter's limit on the number of digits (0: no
      limit), which it applies to numbers of more than 640 digits.\<close>
  "py_int max_str_digits s =
     (let t = strip_chars int_isspace s;
          neg = (t \<noteq> [] \<and> hd t = CHR ''-'');
          body = (if t \<noteq> [] \<and> (hd t = CHR ''-'' \<or> hd t = CHR ''+'') then tl t else t);
          digits = filter (\<lambda>c. c \<noteq> CHR ''_'') body
      in if valid_decimal body \<and>
            \<not> (0 < max_str_digits \<and> 640 < length digits \<and> max_str_digits < length digits)
         then (let v = int (digits_value digits)
               in Some (if neg then - v else v))
         else None)"

fun find_sub :: "string \<Rightarrow> string \<Rightarrow> (string \<times> string) option" where
  \<comment> \<open>the text before and after the first occurrence of \<open>sep\<close> in \<open>s\<close>\<close>
  "find_sub sep [] = (if sep = [] then Some ([], []) else None)"
| "find_sub sep (c # cs) =
     (if prefix sep (c # cs) then Some ([], drop (length sep) (c # cs))
      else (case find_sub sep cs of
              None \<Rightarrow> None
            | Some (before, after) \<Rightarrow> Some (c # before, after)))"

definition contains_sub :: "string \<Rightarrow> string \<Rightarrow> bool" where
  \<comment> \<open>\<^verbatim>\<open>sep in s\<close>\<close>
  "contains_sub sep s = (find_sub sep s \<noteq> None)"

definition split_first :: "string \<Rightarrow> string \<Rightarrow> string" where
  \<comment> \<open>\<^verbatim>\<open>s.split(sep)[0]\<close>\<close>
  "split_first sep s = (case find_sub sep s of None \<Rightarrow> s | Some (before, after) \<Rightarrow> before)"

definition split_second :: "string \<Rightarrow> string \<Rightarrow> string option" where
  \<comment> \<open>\<^verbatim>\<open>s.split(sep)[1]\<close>; \<open>None\<close> is \<^verbatim>\<open>IndexError\<close>\<close>
  "split_second sep s =
     (case find_sub sep s of
        None \<Rightarrow> None
      | Some (before, after) \<Rightarrow> Some (split_first sep after))"

definition basename :: "string \<Rightarrow> string" where
  \<comment> \<open>\<^verbatim>\<open>os.path.basename\<close>: the text after the last \<^verbatim>\<open>/\<close>\<close>
  "basename p = rev (takeWhile (\<lambda>c. c \<noteq> CHR ''/'') (rev p))"

definition splitext :: "string \<Rightarrow> string \<times> string" where
  \<comment> \<open>\<^verbatim>\<open>os.path.splitext\<close> on a name with no \<^verbatim>\<open>/\<close>: split at the last dot, unless only
      dots stand before it\<close>
  "splitext p =
     (if CHR ''.'' \<in> set p
      then (let e = takeWhile (\<lambda>c. c \<noteq> CHR ''.'') (rev p);
                root = take (length p - length e - 1) p
            in if \<exists>c \<in> set root. c \<noteq> CHR ''.''
               then (root, drop (length p - length e - 1) p)
               else (p, []))
      else (p, []))"

definition ascii_lower :: "char \<Rightarrow> char" where
  "ascii_lower c =
     (let n = (of_char c :: nat) in if 65 \<le> n \<and> n \<le> 90 then char_of (n + 32) else c)"

definition lower :: "string \<Rightarrow> string" where
  \<comment> \<open>\<^verbatim>\<open>s.lower()\<close> on the letters A to Z; the source compares the result only with
      endings made of ASCII letters and a dot\<close>
  "lower s = map ascii_lower s"

fun str_nat :: "nat \<Rightarrow> string" where
  \<comment> \<open>the decimal text of a counter, as an f-string prints it\<close>
  "str_nat n =
     (if n < 10 then [char_of (48 + n)]
      else str_nat (n div 10) @ [char_of (48 + n mod 10)])"

declare str_nat.simps [simp del]

subsection \<open>What the program gets from outside\<close>

text \<open>
  \<open>headers\<close> is the case-insensitive dictionary \<^verbatim>\<open>response.headers\<close>, read at the
  lower-case names the source uses; \<open>content\<close> is \<^verbatim>\<open>response.content\<close>, whose read of
  the streamed body can raise.
\<close>

record response =
  headers :: "string \<Rightarrow> string option"
  content :: "py_exception + byte list"

definition headers_get :: "response \<Rightarrow> string \<Rightarrow> string \<Rightarrow> string" where
  \<comment> \<open>\<^verbatim>\<open>response.headers.get(key, default)\<close>\<close>
  "headers_get r key dflt = (case headers r key of None \<Rightarrow> dflt | Some v \<Rightarrow> v)"

text \<open>
  \<^item> \<open>urlparse_path url\<close> is \<^verbatim>\<open>urlparse(url).path\<close>; \<open>None\<close> when \<^verbatim>\<open>urlparse\<close> raises
    \<^verbatim>\<open>ValueError\<close>.
  \<^item> \<open>guess_extension t\<close> is \<^verbatim>\<open>mimetypes.guess_extension(t)\<close>, a table of the host.
  \<^item> \<open>md5_digest bs\<close> is the hexadecimal MD5 digest of the bytes \<open>bs\<close>.
  \<^item> \<open>requests_head url\<close> is the outcome of lines 98-99 (\<open>None\<close>: no exception);
    \<open>requests_get url\<close> the outcome of lines 105-106.
  \<^item> \<open>open_wb name\<close> is the outcome of opening and writing the new file \<open>name\<close>
    (lines 136-137); a failure leaves no file.
  \<^item> \<open>py_print m\<close> is the outcome of printing the message \<open>m\<close> (\<open>None\<close>: printed).
  \<^item> \<open>int_max_str_digits\<close> is \<^verbatim>\<open>sys.get_int_max_str_digits()\<close>, 4300 unless the host
    sets another limit, and 0 where the interpreter has none.
\<close>

datatype message =
  Processing string                   \<comment> \<open>line 94, with the URL\<close>
  | ExtensionWarning                  \<comment> \<open>line 57\<close>
  | SafetyCheckFailed string          \<comment> \<open>line 111, with the reason\<close>
  | SkippingDuplicate "string option" \<comment> \<open>line 120, with the existing file name\<close>
  | SuccessfullyFetched string        \<comment> \<open>line 139, with the file name\<close>
  | ImageSavedTo string               \<comment> \<open>line 140, with the file path\<close>
  | ConnectionError py_exception      \<comment> \<open>line 144, with the exception\<close>
  | ErrorOccurred py_exception        \<comment> \<open>line 146, with the exception\<close>

record world =
  urlparse_path :: "string \<Rightarrow> string option"
  guess_extension :: "string \<Rightarrow> string option"
  md5_digest :: "byte list \<Rightarrow> string"
  requests_head :: "string \<Rightarrow> py_exception option"
  requests_get :: "string \<Rightarrow> py_exception + response"
  open_wb :: "string \<Rightarrow> py_exception option"
  py_print :: "message \<Rightarrow> py_exception option"
  int_max_str_digits :: nat

text \<open>
  The target directory exists (\<^verbatim>\<open>main\<close> creates it) and is listed in the order of
  \<^verbatim>\<open>os.listdir\<close>. An entry is a readable regular file with its bytes, a regular file
  whose \<^verbatim>\<open>open\<close> or \<^verbatim>\<open>read\<close> raises \<^verbatim>\<open>IOError\<close>, or something that is not a regular
  file (a subdirectory). Names have no \<^verbatim>\<open>/\<close>, and every listed name is a path that
  exists (no dangling symbolic link). A new file is listed last. Where the source passes
  the path of an entry (\<open>calculate_file_hash\<close>), the model passes the entry.
\<close>

datatype node = RegularFile "byte list" | UnreadableFile | NonRegular

type_synonym directory = "(string \<times> node) list"

definition isfile :: "node \<Rightarrow> bool" where
  \<comment> \<open>\<^verbatim>\<open>os.path.isfile\<close> of an entry\<close>
  "isfile n = (case n of NonRegular \<Rightarrow> False | _ \<Rightarrow> True)"

definition path_exists :: "directory \<Rightarrow> string \<Rightarrow> bool" where
  \<comment> \<open>\<^verbatim>\<open>os.path.exists(os.path.join(directory, name))\<close>: an entry of that name, or
      the directory itself and its parent\<close>
  "path_exists d name =
     (name \<in> set (map fst d) \<or> name = [] \<or> name = ''.'' \<or> name = ''..'')"

definition open_rb :: "node \<Rightarrow> py_exception + byte list" where
  \<comment> \<open>the bytes that \<^verbatim>\<open>open(filepath, "rb")\<close> and its reads deliver\<close>
  "open_rb n = (case n of RegularFile bs \<Rightarrow> Inr bs | _ \<Rightarrow> Inl IOError)"

subsection \<open>Digests\<close>

text \<open>
  A \<^verbatim>\<open>hashlib\<close> object is the message it has been fed so far: \<^verbatim>\<open>update\<close> appends to
  it and \<^verbatim>\<open>hexdigest\<close> is the digest of the whole, as the library documents.
\<close>

type_synonym md5_object = "byte list"

definition hashlib_md5 :: "byte list \<Rightarrow> md5_object" where
  "hashlib_md5 bs = bs"

definition md5_update :: "md5_object \<Rightarrow> byte list \<Rightarrow> md5_object" where
  "md5_update h chunk = h @ chunk"

definition hexdigest :: "world \<Rightarrow> md5_object \<Rightarrow> string" where
  "hexdigest w h = md5_digest w h"

function read_chunks :: "byte list \<Rightarrow> byte list list" where
  \<comment> \<open>\<^verbatim>\<open>iter(lambda: f.read(4096), b"")\<close>: chunks of 4096 bytes until a read is empty\<close>
  "read_chunks bs = (if bs = [] then [] else take 4096 bs # read_chunks (drop 4096 bs))"
  by pat_completeness auto
termination
  by (relation "measure length") auto

declare read_chunks.simps [simp del]

definition calculate_file_hash :: "world \<Rightarrow> node \<Rightarrow> py_exception + string option" where
  "calculate_file_hash w n =
     (case open_rb n of
        Inr bs \<Rightarrow> Inr (Some (hexdigest w (foldl md5_update (hashlib_md5 []) (read_chunks bs))))
      | Inl e \<Rightarrow> if is_IOError e then Inr None else Inl e)"

fun scan_directory ::
  "world \<Rightarrow> string \<Rightarrow> directory \<Rightarrow> py_exception + (bool \<times> string option)" where
  \<comment> \<open>the loop of lines 30-37\<close>
  "scan_directory w new_hash [] = Inr (False, None)"
| "scan_directory w new_hash ((filename, n) # rest) =
     (if isfile n
      then (case calculate_file_hash w n of
              Inl e \<Rightarrow> Inl e
            | Inr existing_hash \<Rightarrow>
                if existing_hash = Some new_hash then Inr (True, Some filename)
                else scan_directory w new_hash rest)
      else scan_directory w new_hash rest)"

definition is_duplicate_image ::
  "world \<Rightarrow> byte list \<Rightarrow> directory \<Rightarrow> py_exception + (bool \<times> string option)" where
  "is_duplicate_image w bs d =
     (let new_hash = hexdigest w (hashlib_md5 bs) in scan_directory w new_hash d)"

definition has_digest :: "world \<Rightarrow> string \<Rightarrow> directory \<Rightarrow> bool" where
  \<comment> \<open>some readable regular file of the directory has the digest \<open>h\<close>\<close>
  "has_digest w h d = (\<exists>name bs. (name, RegularFile bs) \<in> set d \<and> md5_digest w bs = h)"

subsection \<open>The safety check\<close>

definition size_limit :: int where
  "size_limit = 10 * 1024 * 1024"

definition image_extensions :: "string list" where
  "image_extensions = [''.jpg'', ''.jpeg'', ''.png'', ''.gif'', ''.bmp'', ''.webp'', ''.tiff'']"

definition has_image_extension :: "string \<Rightarrow> bool" where
  \<comment> \<open>\<^verbatim>\<open>any(path.endswith(ext) for ext in image_extensions)\<close>\<close>
  "has_image_extension path = list_ex (\<lambda>ext. suffix ext path) image_extensions"

definition is_safe_to_download ::
  "world \<Rightarrow> string \<Rightarrow> response \<Rightarrow> py_exception + (bool \<times> string)" where
  "is_safe_to_download w url r =
     (let content_type = headers_get r ''content-type'' []
      in if \<not> prefix ''image/'' content_type
         then Inr (False, ''Content type is not an image: '' @ content_type)
         else (case (case headers r ''content-length'' of
                       None \<Rightarrow> Inr False
                     | Some content_length \<Rightarrow>
                         if content_length = [] then Inr False
                         else (case py_int (int_max_str_digits w) content_length of
                                 None \<Rightarrow> Inl ValueError
                               | Some v \<Rightarrow> Inr (v > size_limit))) of
                 Inl e \<Rightarrow> Inl e
               | Inr too_large \<Rightarrow>
                   if too_large then Inr (False, ''File size exceeds safety limit (10MB)'')
                   else (case urlparse_path w url of
                           None \<Rightarrow> Inl ValueError
                         | Some parsed_path \<Rightarrow>
                             (let path = lower parsed_path
                              in if \<not> has_image_extension path
                                 then (case py_print w ExtensionWarning of
                                         Some e \<Rightarrow> Inl e
                                       | None \<Rightarrow> Inr (True, ''Safe to download''))
                                 else Inr (True, ''Safe to download'')))))"

subsection \<open>The file name\<close>

definition safe_chars :: string where
  "safe_chars = '' -_.()[]{}abcdefghijklmnopqrstuvwxyzABCDEFGHIJKLMNOPQRSTUVWXYZ0123456789''"

definition is_quote :: "char \<Rightarrow> bool" where
  \<comment> \<open>the two characters of \<^verbatim>\<open>strip\<close> at line 70: the double and the single quote\<close>
  "is_quote c = (c = CHR 0x22 \<or> c = CHR 0x27)"

definition content_type_extension :: "world \<Rightarrow> response \<Rightarrow> string" where
  \<comment> \<open>lines 74-75 and 85-86\<close>
  "content_type_extension w r =
     (let content_type = headers_get r ''content-type'' ''image/jpeg''
      in case guess_extension w (split_first '';'' content_type) of
           None \<Rightarrow> ''.jpg''
         | Some ext \<Rightarrow> if ext = [] then ''.jpg'' else ext)"

definition lacks_extension :: "string \<Rightarrow> bool" where
  \<comment> \<open>\<^verbatim>\<open>not filename or '.' not in filename\<close>\<close>
  "lacks_extension filename = (filename = [] \<or> CHR ''.'' \<notin> set filename)"

definition get_filename_from_url :: "world \<Rightarrow> string \<Rightarrow> response \<Rightarrow> py_exception + string" where
  "get_filename_from_url w url r =
     (case urlparse_path w url of
        None \<Rightarrow> Inl ValueError
      | Some path \<Rightarrow>
          (let filename = basename path;
               filename =
                 (if lacks_extension filename
                  then (let content_disp = headers_get r ''content-disposition'' []
                        in if contains_sub ''filename='' content_disp
                           then (case split_second ''filename='' content_disp of
                                   Some part \<Rightarrow> strip_chars is_quote part
                                 | None \<Rightarrow> filename)
                           else filename)
                  else filename);
               filename =
                 (if lacks_extension filename
                  then ''downloaded_image'' @ content_type_extension w r
                  else filename);
               filename = split_first ''#'' (split_first ''?'' filename);
               filename = py_strip (filter (\<lambda>c. c \<in> set safe_chars) filename);
               filename =
                 (if CHR ''.'' \<notin> set filename
                  then filename @ content_type_extension w r
                  else filename)
           in Inr filename))"

subsection \<open>The pipeline\<close>

definition candidate :: "string \<Rightarrow> nat \<Rightarrow> string" where
  \<comment> \<open>lines 131-132: the name tried with counter \<open>k\<close>\<close>
  "candidate original k =
     (case splitext original of (name, ext) \<Rightarrow> name @ ''_'' @ str_nat k @ ext)"

function while_exists :: "directory \<Rightarrow> string \<Rightarrow> nat \<Rightarrow> string \<Rightarrow> string" where
  \<comment> \<open>the loop of lines 130-133, with the values of \<^verbatim>\<open>counter\<close> and \<^verbatim>\<open>filepath\<close>\<close>
  "while_exists d original counter filepath =
     (if path_exists d filepath
      then while_exists d original (counter + 1) (candidate original counter)
      else filepath)"
  by pat_completeness auto

definition pending :: "directory \<Rightarrow> string \<Rightarrow> nat \<Rightarrow> nat" where
  \<comment> \<open>how many of the names from \<open>counter\<close> on are taken: what the loop has left to do\<close>
  "pending d original counter =
     card {k. counter \<le> k \<and> path_exists d (candidate original k)}"

definition handle_filename_conflicts :: "directory \<Rightarrow> string \<Rightarrow> string" where
  \<comment> \<open>lines 127-133\<close>
  "handle_filename_conflicts d filename = while_exists d filename 1 filename"

fun store_file :: "string \<Rightarrow> byte list \<Rightarrow> directory \<Rightarrow> directory" where
  \<comment> \<open>the directory after \<^verbatim>\<open>open(filepath, 'wb')\<close> and \<^verbatim>\<open>write\<close>: a new entry, or
      new bytes under a name that is there\<close>
  "store_file name bs [] = [(name, RegularFile bs)]"
| "store_file name bs ((k, n) # rest) =
     (if k = name then (k, RegularFile bs) # rest else (k, n) # store_file name bs rest)"

definition head_probe :: "world \<Rightarrow> string \<Rightarrow> py_exception option" where
  \<comment> \<open>lines 97-102: a \<^verbatim>\<open>RequestException\<close> of the HEAD request is dropped\<close>
  "head_probe w url =
     (case requests_head w url of
        None \<Rightarrow> None
      | Some e \<Rightarrow> if is_RequestException e then None else Some e)"

definition resolve_filename ::
  "world \<Rightarrow> string \<Rightarrow> response \<Rightarrow> directory \<Rightarrow> py_exception + string" where
  \<comment> \<open>lines 124-133: the name from the URL, then the conflict loop\<close>
  "resolve_filename w url r d =
     (case get_filename_from_url w url r of
        Inl e \<Rightarrow> Inl e
      | Inr filename \<Rightarrow> Inr (handle_filename_conflicts d filename))"

definition printing ::
  "world \<Rightarrow> message \<Rightarrow> directory \<Rightarrow> (py_exception + bool) \<times> directory \<Rightarrow>
   (py_exception + bool) \<times> directory" where
  \<comment> \<open>a \<^verbatim>\<open>print\<close> in the body, in the directory \<open>d\<close>, and what follows it\<close>
  "printing w m d rest = (case py_print w m of Some e \<Rightarrow> (Inl e, d) | None \<Rightarrow> rest)"

definition try_body ::
  "world \<Rightarrow> string \<Rightarrow> directory \<Rightarrow> (py_exception + bool) \<times> directory" where
  \<comment> \<open>lines 94-141, the body of the outer \<^verbatim>\<open>try\<close>: what it returns or raises, and
      the directory it leaves\<close>
  "try_body w url d =
     printing w (Processing url) d
     (case head_probe w url of
        Some e \<Rightarrow> (Inl e, d)
      | None \<Rightarrow>
     (case requests_get w url of
        Inl e \<Rightarrow> (Inl e, d)
      | Inr r \<Rightarrow>
     (case is_safe_to_download w url r of
        Inl e \<Rightarrow> (Inl e, d)
      | Inr (is_safe, message) \<Rightarrow>
          if \<not> is_safe then printing w (SafetyCheckFailed message) d (Inr False, d)
          else
     (case content r of
        Inl e \<Rightarrow> (Inl e, d)
      | Inr bs \<Rightarrow>
     (case is_duplicate_image w bs d of
        Inl e \<Rightarrow> (Inl e, d)
      | Inr (is_dup, existing_filename) \<Rightarrow>
          if is_dup then printing w (SkippingDuplicate existing_filename) d (Inr True, d)
          else
     (case resolve_filename w url r d of
        Inl e \<Rightarrow> (Inl e, d)
      | Inr filepath \<Rightarrow>
     (case open_wb w filepath of
        Some e \<Rightarrow> (Inl e, d)
      | None \<Rightarrow>
          (let d' = store_file filepath bs d
           in printing w (SuccessfullyFetched filepath) d'
             (printing w (ImageSavedTo filepath) d' (Inr True, d'))))))))))"

definition handler_message :: "py_exception \<Rightarrow> message" where
  \<comment> \<open>what the handler that takes the exception prints (lines 144, 146)\<close>
  "handler_message e = (if is_RequestException e then ConnectionError e else ErrorOccurred e)"

definition download_single_image ::
  "world \<Rightarrow> string \<Rightarrow> directory \<Rightarrow> (py_exception + bool) \<times> directory" where
  \<comment> \<open>lines 91-148: \<open>Inr b\<close> is the returned boolean, \<open>Inl e\<close> an exception that leaves
      the function. A handler prints outside the \<^verbatim>\<open>try\<close>: what its print raises
      leaves the function.\<close>
  "download_single_image w url d =
     (case try_body w url d of
        (Inl e, d') \<Rightarrow>
          if is_RequestException e
          then (case py_print w (ConnectionError e) of
                  Some e' \<Rightarrow> (Inl e', d')
                | None \<Rightarrow> (Inr False, d'))
          else if is_Exception e
          then (case py_print w (ErrorOccurred e) of
                  Some e' \<Rightarrow> (Inl e', d')
                | None \<Rightarrow> (Inr False, d'))
          else (Inl e, d')
      | (Inr b, d') \<Rightarrow> (Inr b, d'))"

subsection \<open>A small world for closed examples\<close>

text \<open>
  The theorems below hold for every \<open>world\<close>. Closed examples need one: its URL parser
  reads \<^verbatim>\<open>scheme://host/path?query#fragment\<close>, its MIME table has three image types,
  its digest is the message itself (so that different contents have different digests),
  its network serves what \<open>serve\<close> is given, writing and printing succeed, and the
  limit on digits is the interpreter's default. \<open>refusing bad e w\<close> is the world \<open>w\<close>
  with a console on which printing a message of \<open>bad\<close> raises \<open>e\<close>: a console that cannot
  encode a character the message quotes, or a pipe that has been closed.
\<close>

definition example_urlparse_path :: "string \<Rightarrow> string option" where
  "example_urlparse_path url =
     (case find_sub ''://'' url of
        None \<Rightarrow> Some (split_first ''?'' (split_first ''#'' url))
      | Some (scheme, rest) \<Rightarrow>
          Some (split_first ''?'' (split_first ''#''
                  (dropWhile (\<lambda>c. c \<noteq> CHR ''/'' \<and> c \<noteq> CHR ''?'' \<and> c \<noteq> CHR ''#'') rest))))"

definition example_guess_extension :: "string \<Rightarrow> string option" where
  "example_guess_extension t =
     (if t = ''image/png'' then Some ''.png''
      else if t = ''image/jpeg'' then Some ''.jpg''
      else if t = ''image/gif'' then Some ''.gif''
      else None)"

definition example_digest :: "byte list \<Rightarrow> string" where
  "example_digest bs = map (\<lambda>b. char_of (unat b)) bs"

definition serve :: "(string \<Rightarrow> py_exception + response) \<Rightarrow> world" where
  "serve net =
     \<lparr>urlparse_path = example_urlparse_path,
      guess_extension = example_guess_extension,
      md5_digest = example_digest,
      requests_head = (\<lambda>url. None),
      requests_get = net,
      open_wb = (\<lambda>name. None),
      py_print = (\<lambda>m. None),
      int_max_str_digits = 4300\<rparr>"

definition refusing :: "(message \<Rightarrow> bool) \<Rightarrow> py_exception \<Rightarrow> world \<Rightarrow> world" where
  "refusing bad e w = w\<lparr>py_print := (\<lambda>m. if bad m then Some e else None)\<rparr>"

definition response_of :: "(string \<times> string) list \<Rightarrow> byte list \<Rightarrow> response" where
  \<comment> \<open>a response with the given headers and body\<close>
  "response_of hs bs = \<lparr>headers = map_of hs, content = Inr bs\<rparr>"

definition offline :: "string \<Rightarrow> py_exception + response" where
  \<comment> \<open>a network on which every request fails to connect\<close>
  "offline url = Inl RequestException"

definition two_sites :: "string \<Rightarrow> py_exception + response" where
  \<comment> \<open>two sites that serve different bytes under the same file name\<close>
  "two_sites url =
     (if url = ''https://a.example/image.jpg''
      then Inr (response_of [(''content-type'', ''image/jpeg'')] [1])
      else Inr (response_of [(''content-type'', ''image/jpeg'')] [2]))"

section \<open>The conflict loop terminates\<close>

text \<open>
  The names \<open>candidate original 1\<close>, \<open>candidate original 2\<close>, ... are pairwise
  different, because the decimal text of a counter determines it, and a directory lists
  finitely many names. So the loop of lines 130-133 reaches a name that is free.
\<close>

lemma digits_value_snoc:
  "digits_value (s @ [c]) = 10 * digits_value s + digit_value c"
  by (simp add: digits_value_def)

lemma digit_value_char_of: "k < 10 \<Longrightarrow> digit_value (char_of (48 + k)) = k"
  by (simp add: digit_value_def)

lemma digits_value_str_nat: "digits_value (str_nat n) = n"
proof (induction n rule: str_nat.induct)
  case (1 n)
  show ?case
  proof (cases "n < 10")
    case True
    then show ?thesis
      using digit_value_char_of [of n] by (simp add: digits_value_def str_nat.simps [of n])
  next
    case False
    have "digits_value (str_nat n) = 10 * digits_value (str_nat (n div 10)) + digit_value (char_of (48 + n mod 10))"
      using False by (simp add: str_nat.simps [of n] digits_value_snoc)
    also have "\<dots> = 10 * (n div 10) + n mod 10"
      using "1.IH" False digit_value_char_of [of "n mod 10"] by simp
    finally show ?thesis by simp
  qed
qed

lemma str_nat_inj: "str_nat k = str_nat j \<Longrightarrow> k = j"
  by (metis digits_value_str_nat)

lemma candidate_inj: "candidate original k = candidate original j \<Longrightarrow> k = j"
proof -
  assume eq: "candidate original k = candidate original j"
  obtain name ext where s: "splitext original = (name, ext)"
    by (cases "splitext original")
  from eq s have "str_nat k = str_nat j"
    by (simp add: candidate_def)
  then show "k = j" by (rule str_nat_inj)
qed

lemma underscore_in_candidate: "CHR ''_'' \<in> set (candidate original k)"
  by (cases "splitext original") (simp add: candidate_def)

lemma path_exists_candidate:
  "path_exists d (candidate original k) = (candidate original k \<in> set (map fst d))"
  using underscore_in_candidate [of original k]
  by (auto simp: path_exists_def)

lemma finite_existing_candidates: "finite {k. path_exists d (candidate original k)}"
proof -
  have "{k. path_exists d (candidate original k)} = candidate original -` set (map fst d)"
    by (auto simp: path_exists_candidate)
  moreover have "finite (candidate original -` set (map fst d))"
    by (rule finite_vimageI) (auto simp: inj_on_def dest: candidate_inj)
  ultimately show ?thesis by simp
qed

lemma pending_step:
  "pending d original counter =
     pending d original (Suc counter) + (if path_exists d (candidate original counter) then 1 else 0)"
proof -
  let ?P = "\<lambda>k. path_exists d (candidate original k)"
  have fin: "finite {k. Suc counter \<le> k \<and> ?P k}"
    by (rule finite_subset [OF _ finite_existing_candidates [of d original]]) auto
  show ?thesis
  proof (cases "?P counter")
    case True
    then have "{k. counter \<le> k \<and> ?P k} = insert counter {k. Suc counter \<le> k \<and> ?P k}"
      by (auto simp: le_Suc_eq)
    then show ?thesis using True fin by (simp add: pending_def)
  next
    case False
    then have "{k. counter \<le> k \<and> ?P k} = {k. Suc counter \<le> k \<and> ?P k}"
      by (auto simp: Suc_le_eq order_le_less)
    then show ?thesis using False by (simp add: pending_def)
  qed
qed

termination while_exists
proof (relation "measure (\<lambda>(d, original, counter, filepath).
         pending d original counter + (if path_exists d filepath then 1 else 0))")
  show "wf (measure (\<lambda>(d, original, counter, filepath).
         pending d original counter + (if path_exists d filepath then 1 else 0)))"
    by simp
next
  fix d original counter filepath
  assume "path_exists d filepath"
  then show "((d, original, counter + 1, candidate original counter), (d, original, counter, filepath))
    \<in> measure (\<lambda>(d, original, counter, filepath).
         pending d original counter + (if path_exists d filepath then 1 else 0))"
    using pending_step [of d original counter] by simp
qed

declare while_exists.simps [simp del]

lemma while_exists_stop:
  "\<not> path_exists d filepath \<Longrightarrow> while_exists d original counter filepath = filepath"
  by (subst while_exists.simps) simp

lemma while_exists_step:
  "path_exists d filepath \<Longrightarrow>
   while_exists d original counter filepath =
     while_exists d original (counter + 1) (candidate original counter)"
  by (subst while_exists.simps) simp

lemma while_exists_free: "\<not> path_exists d (while_exists d original counter filepath)"
proof (induction d original counter filepath rule: while_exists.induct)
  case (1 d original counter filepath)
  show ?case
  proof (cases "path_exists d filepath")
    case True
    then show ?thesis
      using "1.IH" by (simp add: while_exists_step)
  next
    case False
    then show ?thesis
      by (simp add: while_exists_stop)
  qed
qed

lemma while_exists_smallest:
  "path_exists d filepath \<Longrightarrow>
   \<exists>n\<ge>counter. while_exists d original counter filepath = candidate original n \<and>
      \<not> path_exists d (candidate original n) \<and>
      (\<forall>k. counter \<le> k \<and> k < n \<longrightarrow> path_exists d (candidate original k))"
proof (induction d original counter filepath rule: while_exists.induct)
  case (1 d original counter filepath)
  have step: "while_exists d original counter filepath =
      while_exists d original (counter + 1) (candidate original counter)"
    using "1.prems" by (rule while_exists_step)
  show ?case
  proof (cases "path_exists d (candidate original counter)")
    case True
    from "1.IH" [OF "1.prems" True] obtain n where
      n: "counter + 1 \<le> n"
        "while_exists d original (counter + 1) (candidate original counter) = candidate original n"
        "\<not> path_exists d (candidate original n)"
        "\<forall>k. counter + 1 \<le> k \<and> k < n \<longrightarrow> path_exists d (candidate original k)"
      by blast
    have "\<forall>k. counter \<le> k \<and> k < n \<longrightarrow> path_exists d (candidate original k)"
    proof (intro allI impI)
      fix k assume k: "counter \<le> k \<and> k < n"
      show "path_exists d (candidate original k)"
      proof (cases "k = counter")
        case True
        then show ?thesis using \<open>path_exists d (candidate original counter)\<close> by simp
      next
        case False
        with k have "counter + 1 \<le> k \<and> k < n" by simp
        with n(4) show ?thesis by blast
      qed
    qed
    moreover have "counter \<le> n" using n(1) by simp
    ultimately show ?thesis using step n(2) n(3) by auto
  next
    case False
    then have "while_exists d original counter filepath = candidate original counter"
      using step by (simp add: while_exists_stop)
    with False show ?thesis by auto
  qed
qed

lemma handle_filename_conflicts_free:
  "\<not> path_exists d filename \<Longrightarrow> handle_filename_conflicts d filename = filename"
  by (simp add: handle_filename_conflicts_def while_exists_stop)

lemma handle_filename_conflicts_first:
  "path_exists d filename \<Longrightarrow> \<not> path_exists d (candidate filename (Suc 0)) \<Longrightarrow>
   handle_filename_conflicts d filename = candidate filename (Suc 0)"
  by (simp add: handle_filename_conflicts_def while_exists_step while_exists_stop)

lemma splitext_append: "fst (splitext p) @ snd (splitext p) = p"
  by (simp add: splitext_def Let_def)

lemma path_exists_store_file: "path_exists (store_file name bs d) name"
proof (induction d)
  case Nil
  show ?case by (simp add: path_exists_def)
next
  case (Cons entry d)
  obtain k n where entry: "entry = (k, n)" by (cases entry)
  show ?case using Cons.IH by (auto simp: entry path_exists_def)
qed

lemma store_file_new:
  "name \<notin> set (map fst d) \<Longrightarrow> store_file name bs d = d @ [(name, RegularFile bs)]"
proof (induction d)
  case Nil
  show ?case by simp
next
  case (Cons entry d)
  obtain k n where entry: "entry = (k, n)" by (cases entry)
  show ?case using Cons by (auto simp: entry)
qed

section \<open>Digests and the duplicate scan\<close>

lemma read_chunks_Nil: "read_chunks [] = []"
  by (simp add: read_chunks.simps)

lemma read_chunks_Cons:
  "bs \<noteq> [] \<Longrightarrow> read_chunks bs = take 4096 bs # read_chunks (drop 4096 bs)"
  by (subst read_chunks.simps) simp

lemma concat_read_chunks: "concat (read_chunks bs) = bs"
proof (induction bs rule: read_chunks.induct)
  case (1 bs)
  show ?case
  proof (cases "bs = []")
    case True
    then show ?thesis by (simp add: read_chunks_Nil)
  next
    case False
    then show ?thesis using "1.IH" by (simp add: read_chunks_Cons)
  qed
qed

lemma foldl_md5_update: "foldl md5_update h chunks = h @ concat chunks"
  by (induction chunks arbitrary: h) (simp_all add: md5_update_def)

lemma calculate_file_hash_regular:
  "calculate_file_hash w (RegularFile bs) = Inr (Some (md5_digest w bs))"
  by (simp add: calculate_file_hash_def open_rb_def hexdigest_def hashlib_md5_def
      foldl_md5_update concat_read_chunks)

lemma calculate_file_hash_unreadable: "calculate_file_hash w UnreadableFile = Inr None"
  by (simp add: calculate_file_hash_def open_rb_def is_IOError_def)

lemma calculate_file_hash_returns: "\<exists>h. calculate_file_hash w n = Inr h"
  by (cases n) (simp_all add: calculate_file_hash_def open_rb_def is_IOError_def)

text \<open>
  Claim C9. \<open>calculate_file_hash\<close> feeds the bytes of a file to the digest in chunks of
  4096 bytes; \<open>is_duplicate_image\<close> feeds the new content at once. Both give the same
  digest of the same bytes: the chunks, put together again, are the file.
\<close>

theorem streamed_digest_is_whole_digest:
  "calculate_file_hash w (RegularFile bs) = Inr (Some (hexdigest w (hashlib_md5 bs))) \<and>
   hexdigest w (foldl md5_update (hashlib_md5 []) (read_chunks bs)) = hexdigest w (hashlib_md5 bs) \<and>
   concat (read_chunks bs) = bs"
  by (simp add: calculate_file_hash_regular hexdigest_def hashlib_md5_def foldl_md5_update
      concat_read_chunks)

lemma scan_directory_skip:
  "scan_directory w h (pre @ (name, UnreadableFile) # post) = scan_directory w h (pre @ post)"
proof (induction pre)
  case Nil
  show ?case by (simp add: isfile_def calculate_file_hash_unreadable)
next
  case (Cons entry pre)
  obtain k n where entry: "entry = (k, n)" by (cases entry)
  show ?case using Cons.IH by (simp add: entry split: sum.split)
qed

lemma scan_directory_returns: "\<exists>r. scan_directory w h d = Inr r"
proof (induction d)
  case Nil
  show ?case by (rule exI [of _ "(False, None)"]) simp
next
  case (Cons entry d)
  obtain k n where entry: "entry = (k, n)" by (cases entry)
  obtain g where g: "calculate_file_hash w n = Inr g"
    using calculate_file_hash_returns by blast
  from Cons.IH obtain r where r: "scan_directory w h d = Inr r" by blast
  show ?case
  proof (cases "isfile n \<and> g = Some h")
    case True
    then have "scan_directory w h (entry # d) = Inr (True, Some k)"
      by (simp add: entry g)
    then show ?thesis by blast
  next
    case False
    then have "scan_directory w h (entry # d) = Inr r"
      by (auto simp: entry g r)
    then show ?thesis by blast
  qed
qed

text \<open>
  Claim C8. A regular file that cannot be opened or read has no digest: its
  \<^verbatim>\<open>IOError\<close> is handled in \<open>calculate_file_hash\<close>, which returns \<^verbatim>\<open>None\<close>. The scan
  goes on as if the entry were not listed, wherever it stands in the listing, and
  \<open>is_duplicate_image\<close> always returns: no exception leaves it.
\<close>

theorem unreadable_file_is_skipped:
  "calculate_file_hash w UnreadableFile = Inr None \<and>
   is_duplicate_image w bs (pre @ (name, UnreadableFile) # post) = is_duplicate_image w bs (pre @ post) \<and>
   (\<exists>r. is_duplicate_image w bs d = Inr r)"
  using scan_directory_returns [of w "hexdigest w (hashlib_md5 bs)" d]
  by (simp add: calculate_file_hash_unreadable is_duplicate_image_def scan_directory_skip)

lemma scan_directory_no_match:
  "\<not> has_digest w h d \<Longrightarrow> scan_directory w h d = Inr (False, None)"
proof (induction d)
  case Nil
  show ?case by simp
next
  case (Cons entry d)
  obtain k n where entry: "entry = (k, n)" by (cases entry)
  from Cons.prems have rest: "\<not> has_digest w h d"
    by (auto simp: has_digest_def)
  show ?case
  proof (cases n)
    case (RegularFile bs)
    with Cons.prems entry have "md5_digest w bs \<noteq> h"
      by (auto simp: has_digest_def)
    then show ?thesis
      using Cons.IH [OF rest] by (simp add: entry RegularFile isfile_def calculate_file_hash_regular)
  next
    case UnreadableFile
    then show ?thesis
      using Cons.IH [OF rest] by (simp add: entry isfile_def calculate_file_hash_unreadable)
  next
    case NonRegular
    then show ?thesis
      using Cons.IH [OF rest] by (simp add: entry isfile_def)
  qed
qed

lemma scan_directory_match:
  "has_digest w h d \<Longrightarrow>
   \<exists>pre name bs post. d = pre @ (name, RegularFile bs) # post \<and> md5_digest w bs = h \<and>
      \<not> has_digest w h pre \<and> scan_directory w h d = Inr (True, Some name)"
proof (induction d)
  case Nil
  then show ?case by (simp add: has_digest_def)
next
  case (Cons entry d)
  obtain k n where entry: "entry = (k, n)" by (cases entry)
  show ?case
  proof (cases "\<exists>bs. n = RegularFile bs \<and> md5_digest w bs = h")
    case True
    then obtain bs where n: "n = RegularFile bs" and h: "md5_digest w bs = h" by blast
    have "entry # d = [] @ (k, RegularFile bs) # d" by (simp add: entry n)
    moreover have "\<not> has_digest w h []" by (simp add: has_digest_def)
    moreover have "scan_directory w h (entry # d) = Inr (True, Some k)"
      by (simp add: entry n h isfile_def calculate_file_hash_regular)
    ultimately show ?thesis using h by blast
  next
    case False
    with Cons.prems entry have "has_digest w h d"
      by (auto simp: has_digest_def)
    from Cons.IH [OF this] obtain pre name bs post where
      d: "d = pre @ (name, RegularFile bs) # post" and h: "md5_digest w bs = h" and
      pre: "\<not> has_digest w h pre" and scan: "scan_directory w h d = Inr (True, Some name)"
      by blast
    have "entry # d = (entry # pre) @ (name, RegularFile bs) # post" by (simp add: d)
    moreover have "\<not> has_digest w h (entry # pre)"
      using pre False entry by (auto simp: has_digest_def)
    moreover have "scan_directory w h (entry # d) = Inr (True, Some name)"
    proof (cases n)
      case (RegularFile cs)
      with False have "md5_digest w cs \<noteq> h" by simp
      then show ?thesis
        using scan by (simp add: entry RegularFile isfile_def calculate_file_hash_regular)
    next
      case UnreadableFile
      then show ?thesis
        using scan by (simp add: entry isfile_def calculate_file_hash_unreadable)
    next
      case NonRegular
      then show ?thesis using scan by (simp add: entry isfile_def)
    qed
    ultimately show ?thesis using h by blast
  qed
qed

text \<open>
  Claim C2. \<open>is_duplicate_image\<close> answers \<^verbatim>\<open>(False, None)\<close> exactly when no readable
  regular file of the directory has the digest of the content, and otherwise answers
  \<^verbatim>\<open>True\<close> with the name of a file that has it. Names are arbitrary strings: neither
  the name nor its extension matters.
\<close>

theorem is_duplicate_image_iff:
  "(is_duplicate_image w c d = Inr (False, None)) =
     (\<not> (\<exists>name bs. (name, RegularFile bs) \<in> set d \<and> md5_digest w bs = md5_digest w c)) \<and>
   (\<exists>name bs. is_duplicate_image w c d = Inr (True, Some name) \<and>
        (name, RegularFile bs) \<in> set d \<and> md5_digest w bs = md5_digest w c) =
     (\<exists>name bs. (name, RegularFile bs) \<in> set d \<and> md5_digest w bs = md5_digest w c)"
proof (cases "has_digest w (md5_digest w c) d")
  case True
  from scan_directory_match [OF True] obtain pre name bs post where
    d: "d = pre @ (name, RegularFile bs) # post" and h: "md5_digest w bs = md5_digest w c" and
    scan: "scan_directory w (md5_digest w c) d = Inr (True, Some name)"
    by blast
  have dup: "is_duplicate_image w c d = Inr (True, Some name)"
    using scan by (simp add: is_duplicate_image_def hexdigest_def hashlib_md5_def)
  have mem: "(name, RegularFile bs) \<in> set d" by (simp add: d)
  show ?thesis using dup mem h by auto
next
  case False
  have "is_duplicate_image w c d = Inr (False, None)"
    using scan_directory_no_match [OF False]
    by (simp add: is_duplicate_image_def hexdigest_def hashlib_md5_def)
  then show ?thesis using False by (auto simp: has_digest_def)
qed

section \<open>The example world, evaluated\<close>

lemma char_of_49: "char_of (49::nat) = CHR ''1''"
  using char_of_char [of "CHR ''1''", where ?'a = nat] by simp

lemma str_nat_1: "str_nat (Suc 0) = ''1''"
  using char_of_49 by (simp add: str_nat.simps [of "Suc 0"])

lemma candidate_test_png: "candidate ''test.png'' (Suc 0) = ''test_1.png''"
  using str_nat_1 by (simp add: candidate_def splitext_def)

lemma candidate_image_jpg: "candidate ''image.jpg'' (Suc 0) = ''image_1.jpg''"
  using str_nat_1 by (simp add: candidate_def splitext_def)

lemma example_path_test_png:
  "example_urlparse_path ''https://example.com/test.png'' = Some ''/test.png''"
  by (simp add: example_urlparse_path_def split_first_def)

lemma example_path_photo:
  "example_urlparse_path ''https://example.com/photo.'' = Some ''/photo.''"
  by (simp add: example_urlparse_path_def split_first_def)

lemma example_path_image_jpg:
  "example_urlparse_path ''https://b.example/image.jpg'' = Some ''/image.jpg''"
  by (simp add: example_urlparse_path_def split_first_def)

lemma example_path_notes_txt:
  "example_urlparse_path ''https://example.com/notes.txt'' = Some ''/notes.txt''"
  by (simp add: example_urlparse_path_def split_first_def)

lemma extension_test_png: "has_image_extension (lower ''/test.png'')"
  by (simp add: has_image_extension_def image_extensions_def lower_def ascii_lower_def
      suffix_to_prefix)

lemma extension_image_jpg: "has_image_extension (lower ''/image.jpg'')"
  by (simp add: has_image_extension_def image_extensions_def lower_def ascii_lower_def
      suffix_to_prefix)

lemma no_extension_notes_txt: "\<not> has_image_extension (lower ''/notes.txt'')"
  by (simp add: has_image_extension_def image_extensions_def lower_def ascii_lower_def
      suffix_to_prefix)

lemma py_int_1024: "py_int n ''1024'' = Some 1024"
  by (simp add: py_int_def strip_chars_def int_isspace_def valid_decimal_def
      is_digit_def digits_value_def digit_value_def)

lemma py_int_20971520: "py_int n ''20971520'' = Some 20971520"
  by (simp add: py_int_def strip_chars_def int_isspace_def valid_decimal_def
      is_digit_def digits_value_def digit_value_def)

lemma py_int_abc: "py_int n ''abc'' = None"
  by (simp add: py_int_def strip_chars_def int_isspace_def valid_decimal_def
      is_digit_def digits_value_def digit_value_def)

lemma py_int_12_kB: "py_int n ''12 kB'' = None"
  by (simp add: py_int_def strip_chars_def int_isspace_def valid_decimal_def
      is_digit_def digits_value_def digit_value_def)

lemma py_int_e_acute: "py_int n (''12'' @ [CHR 0xE9]) = None"
  by (simp add: py_int_def strip_chars_def int_isspace_def valid_decimal_def
      is_digit_def digits_value_def digit_value_def)

text \<open>
  \<^verbatim>\<open>int\<close> does not drop the separators 28 to 31, which \<^verbatim>\<open>str.strip\<close> drops; it drops
  the no-break space and the next-line character; and at the default limit it refuses a
  number of 4301 digits.
\<close>

lemma py_int_unit_separator: "py_int n (''1024'' @ [CHR 0x1F]) = None"
  by (simp add: py_int_def strip_chars_def int_isspace_def valid_decimal_def
      is_digit_def digits_value_def digit_value_def)

lemma py_int_file_separator: "py_int n (CHR 0x1C # ''5'') = None"
  by (simp add: py_int_def strip_chars_def int_isspace_def valid_decimal_def
      is_digit_def digits_value_def digit_value_def)

lemma py_int_no_break_space: "py_int n (CHR 0xA0 # ''5'' @ [CHR 0x85]) = Some 5"
  by (simp add: py_int_def strip_chars_def int_isspace_def valid_decimal_def
      is_digit_def digits_value_def digit_value_def)

lemma py_int_too_many_digits: "py_int 4300 (replicate 4301 CHR ''9'') = None"
proof -
  have "strip_chars int_isspace (replicate 4301 CHR ''9'') = replicate 4301 CHR ''9''"
    by (simp add: strip_chars_def int_isspace_def dropWhile_eq_self_iff)
  then show ?thesis
    by (simp add: py_int_def)
qed

lemma py_int_nonempty: "py_int n s = Some v \<Longrightarrow> s \<noteq> []"
  by (auto simp: py_int_def strip_chars_def valid_decimal_def Let_def split: if_splits)

lemma filename_test_png:
  "get_filename_from_url (serve net) ''https://example.com/test.png'' r = Inr ''test.png''"
  by (simp add: get_filename_from_url_def serve_def example_path_test_png basename_def
      lacks_extension_def split_first_def safe_chars_def py_strip_def strip_chars_def
      py_isspace_def)

lemma filename_image_jpg:
  "get_filename_from_url (serve net) ''https://b.example/image.jpg'' r = Inr ''image.jpg''"
  by (simp add: get_filename_from_url_def serve_def example_path_image_jpg basename_def
      lacks_extension_def split_first_def safe_chars_def py_strip_def strip_chars_def
      py_isspace_def)

lemma safe_png:
  "is_safe_to_download (serve net) ''https://example.com/test.png''
     (response_of [(''content-type'', ''image/png'')] bs) = Inr (True, ''Safe to download'')"
  using extension_test_png
  by (simp add: is_safe_to_download_def headers_get_def response_of_def serve_def
      example_path_test_png)

lemma safe_jpeg:
  "is_safe_to_download (serve net) ''https://b.example/image.jpg''
     (response_of [(''content-type'', ''image/jpeg'')] bs) = Inr (True, ''Safe to download'')"
  using extension_image_jpg
  by (simp add: is_safe_to_download_def headers_get_def response_of_def serve_def
      example_path_image_jpg)



lemma second_is_new:
  "is_duplicate_image (serve net) [2] [(''image.jpg'', RegularFile [1])] = Inr (False, None)"
  by (simp add: is_duplicate_image_def hexdigest_def hashlib_md5_def isfile_def
      calculate_file_hash_regular serve_def example_digest_def)

lemma fetch_into_empty_directory:
  "download_single_image (serve (\<lambda>url. Inr (response_of [(''content-type'', ''image/png'')] [1, 2, 3])))
     ''https://example.com/test.png'' []
   = (Inr True, [(''test.png'', RegularFile [1, 2, 3])])"
  using safe_png [of "\<lambda>url. Inr (response_of [(''content-type'', ''image/png'')] [1, 2, 3])" "[1, 2, 3]"]
    filename_test_png [of "\<lambda>url. Inr (response_of [(''content-type'', ''image/png'')] [1, 2, 3])"
      "response_of [(''content-type'', ''image/png'')] [1, 2, 3]"]
  by (simp add: download_single_image_def try_body_def printing_def resolve_filename_def
      head_probe_def handle_filename_conflicts_free path_exists_def is_duplicate_image_def
      response_of_def serve_def)

section \<open>The safety check\<close>

lemma prefix_image_png: "prefix ''image/'' ''image/png''"
  by simp

lemma not_prefix_text_html: "\<not> prefix ''image/'' ''text/html''"
  by simp

text \<open>
  Claim C3, as amended. \<open>is_safe_to_download\<close> rejects with the not-an-image reason
  unless the content type begins with \<^verbatim>\<open>image/\<close>, whatever the size. For an image
  type it rejects with the size reason when the content length reads as an integer above
  10 * 1024 * 1024, and accepts when the content length is absent, empty or reads as an
  integer up to that limit, provided the URL parses and the warning of line 57, due when
  the path has no image extension, prints. So \<^verbatim>\<open>text/html\<close> is rejected,
  \<^verbatim>\<open>image/png\<close> with length 1024 is accepted and with length 20971520 rejected. A
  content length that does not read as an integer is the case of claim C10.
\<close>

theorem is_safe_to_download_verdict:
  "(\<not> prefix ''image/'' (headers_get r ''content-type'' []) \<longrightarrow>
      is_safe_to_download w url r =
        Inr (False, ''Content type is not an image: '' @ headers_get r ''content-type'' [])) \<and>
   (prefix ''image/'' (headers_get r ''content-type'' []) \<and>
    headers r ''content-length'' = Some cl \<and>
    py_int (int_max_str_digits w) cl = Some v \<and> v > 10 * 1024 * 1024 \<longrightarrow>
      is_safe_to_download w url r = Inr (False, ''File size exceeds safety limit (10MB)'')) \<and>
   (prefix ''image/'' (headers_get r ''content-type'' []) \<and>
    (headers r ''content-length'' = None \<or> headers r ''content-length'' = Some [] \<or>
     (headers r ''content-length'' = Some cl \<and>
      py_int (int_max_str_digits w) cl = Some v \<and> v \<le> 10 * 1024 * 1024)) \<and>
    urlparse_path w url = Some path \<and>
    (has_image_extension (lower path) \<or> py_print w ExtensionWarning = None) \<longrightarrow>
      is_safe_to_download w url r = Inr (True, ''Safe to download'')) \<and>
   (headers r ''content-type'' = Some ''text/html'' \<longrightarrow>
      is_safe_to_download w url r = Inr (False, ''Content type is not an image: text/html'')) \<and>
   (headers r ''content-type'' = Some ''image/png'' \<and>
    headers r ''content-length'' = Some ''1024'' \<and> urlparse_path w url = Some path \<and>
    (has_image_extension (lower path) \<or> py_print w ExtensionWarning = None) \<longrightarrow>
      is_safe_to_download w url r = Inr (True, ''Safe to download'')) \<and>
   (headers r ''content-type'' = Some ''image/png'' \<and>
    headers r ''content-length'' = Some ''20971520'' \<longrightarrow>
      is_safe_to_download w url r = Inr (False, ''File size exceeds safety limit (10MB)''))"
proof (intro conjI impI)
  assume "\<not> prefix ''image/'' (headers_get r ''content-type'' [])"
  then show "is_safe_to_download w url r =
      Inr (False, ''Content type is not an image: '' @ headers_get r ''content-type'' [])"
    by (simp add: is_safe_to_download_def)
next
  assume a: "prefix ''image/'' (headers_get r ''content-type'' []) \<and>
    headers r ''content-length'' = Some cl \<and>
    py_int (int_max_str_digits w) cl = Some v \<and> v > 10 * 1024 * 1024"
  then have "cl \<noteq> []"
    using py_int_nonempty by blast
  with a show "is_safe_to_download w url r = Inr (False, ''File size exceeds safety limit (10MB)'')"
    by (simp add: is_safe_to_download_def size_limit_def)
next
  assume a: "prefix ''image/'' (headers_get r ''content-type'' []) \<and>
    (headers r ''content-length'' = None \<or> headers r ''content-length'' = Some [] \<or>
     (headers r ''content-length'' = Some cl \<and>
      py_int (int_max_str_digits w) cl = Some v \<and> v \<le> 10 * 1024 * 1024)) \<and>
    urlparse_path w url = Some path \<and>
    (has_image_extension (lower path) \<or> py_print w ExtensionWarning = None)"
  then show "is_safe_to_download w url r = Inr (True, ''Safe to download'')"
    by (auto simp: is_safe_to_download_def size_limit_def)
next
  assume "headers r ''content-type'' = Some ''text/html''"
  then show "is_safe_to_download w url r = Inr (False, ''Content type is not an image: text/html'')"
    using not_prefix_text_html by (simp add: is_safe_to_download_def headers_get_def)
next
  assume "headers r ''content-type'' = Some ''image/png'' \<and>
    headers r ''content-length'' = Some ''1024'' \<and> urlparse_path w url = Some path \<and>
    (has_image_extension (lower path) \<or> py_print w ExtensionWarning = None)"
  then show "is_safe_to_download w url r = Inr (True, ''Safe to download'')"
    using prefix_image_png py_int_1024
    by (auto simp: is_safe_to_download_def headers_get_def size_limit_def)
next
  assume "headers r ''content-type'' = Some ''image/png'' \<and>
    headers r ''content-length'' = Some ''20971520''"
  then show "is_safe_to_download w url r = Inr (False, ''File size exceeds safety limit (10MB)'')"
    using prefix_image_png py_int_20971520
    by (simp add: is_safe_to_download_def headers_get_def size_limit_def)
qed

theorem is_safe_to_download_verdict_witness:
  "\<not> prefix ''image/'' ''text/html'' \<and>
   is_safe_to_download (serve offline) ''https://example.com/test.png''
       (response_of [(''content-type'', ''text/html''), (''content-length'', ''1024'')] [])
     = Inr (False, ''Content type is not an image: text/html'') \<and>
   py_int 4300 ''1024'' = Some 1024 \<and>
   has_image_extension (lower ''/test.png'') \<and>
   is_safe_to_download (serve offline) ''https://example.com/test.png''
       (response_of [(''content-type'', ''image/png''), (''content-length'', ''1024'')] [])
     = Inr (True, ''Safe to download'') \<and>
   py_int 4300 ''20971520'' = Some 20971520 \<and>
   is_safe_to_download (serve offline) ''https://example.com/test.png''
       (response_of [(''content-type'', ''image/png''), (''content-length'', ''20971520'')] [])
     = Inr (False, ''File size exceeds safety limit (10MB)'') \<and>
   is_safe_to_download (serve offline) ''https://example.com/test.png''
       (response_of [(''content-type'', ''image/png'')] [])
     = Inr (True, ''Safe to download'')"
proof -
  let ?w = "serve offline" and ?url = "''https://example.com/test.png''"
  let ?html = "response_of [(''content-type'', ''text/html''), (''content-length'', ''1024'')] []"
  let ?small = "response_of [(''content-type'', ''image/png''), (''content-length'', ''1024'')] []"
  let ?large = "response_of [(''content-type'', ''image/png''), (''content-length'', ''20971520'')] []"
  let ?bare = "response_of [(''content-type'', ''image/png'')] []"
  have path: "urlparse_path ?w ?url = Some ''/test.png''"
    by (simp add: serve_def example_path_test_png)
  have limit: "int_max_str_digits ?w = 4300"
    by (simp add: serve_def)
  have html: "\<not> prefix ''image/'' (headers_get ?html ''content-type'' [])"
    by (simp add: headers_get_def response_of_def)
  have "is_safe_to_download ?w ?url ?html
      = Inr (False, ''Content type is not an image: '' @ headers_get ?html ''content-type'' [])"
    using is_safe_to_download_verdict [of ?html ?w ?url] html by blast
  then have one: "is_safe_to_download ?w ?url ?html
      = Inr (False, ''Content type is not an image: text/html'')"
    by (simp add: headers_get_def response_of_def)
  have small: "prefix ''image/'' (headers_get ?small ''content-type'' []) \<and>
      (headers ?small ''content-length'' = None \<or> headers ?small ''content-length'' = Some [] \<or>
       (headers ?small ''content-length'' = Some ''1024'' \<and>
        py_int (int_max_str_digits ?w) ''1024'' = Some 1024 \<and>
        (1024::int) \<le> 10 * 1024 * 1024)) \<and>
      urlparse_path ?w ?url = Some ''/test.png'' \<and>
      (has_image_extension (lower ''/test.png'') \<or> py_print ?w ExtensionWarning = None)"
    using py_int_1024 path extension_test_png by (simp add: headers_get_def response_of_def)
  have two: "is_safe_to_download ?w ?url ?small = Inr (True, ''Safe to download'')"
    using is_safe_to_download_verdict [of ?small ?w ?url "''1024''" 1024 "''/test.png''"] small
    by blast
  have large: "prefix ''image/'' (headers_get ?large ''content-type'' []) \<and>
      headers ?large ''content-length'' = Some ''20971520'' \<and>
      py_int (int_max_str_digits ?w) ''20971520'' = Some 20971520 \<and>
      (20971520::int) > 10 * 1024 * 1024"
    using py_int_20971520 by (simp add: headers_get_def response_of_def)
  have three: "is_safe_to_download ?w ?url ?large
      = Inr (False, ''File size exceeds safety limit (10MB)'')"
    using is_safe_to_download_verdict [of ?large ?w ?url "''20971520''" 20971520] large
    by blast
  have bare: "prefix ''image/'' (headers_get ?bare ''content-type'' []) \<and>
      (headers ?bare ''content-length'' = None \<or> headers ?bare ''content-length'' = Some [] \<or>
       (headers ?bare ''content-length'' = Some [] \<and>
        py_int (int_max_str_digits ?w) [] = Some 0 \<and> (0::int) \<le> 10 * 1024 * 1024)) \<and>
      urlparse_path ?w ?url = Some ''/test.png'' \<and>
      (has_image_extension (lower ''/test.png'') \<or> py_print ?w ExtensionWarning = None)"
    using path extension_test_png by (simp add: headers_get_def response_of_def)
  have four: "is_safe_to_download ?w ?url ?bare = Inr (True, ''Safe to download'')"
    using is_safe_to_download_verdict [of ?bare ?w ?url "[]" 0 "''/test.png''"] bare
    by blast
  show ?thesis
    using one two three four py_int_1024 py_int_20971520 not_prefix_text_html
      extension_test_png by simp
qed

text \<open>
  Claim C3 as stated fails: with content type \<^verbatim>\<open>image/png\<close> and content length
  \<^verbatim>\<open>abc\<close> neither rejection applies, and the check does not accept: it raises.
\<close>

theorem is_safe_to_download_counterexample:
  "prefix ''image/''
     (headers_get (response_of [(''content-type'', ''image/png''), (''content-length'', ''abc'')] [])
        ''content-type'' []) \<and>
   py_int 4300 ''abc'' = None \<and>
   is_safe_to_download (serve offline) ''https://example.com/a.png''
     (response_of [(''content-type'', ''image/png''), (''content-length'', ''abc'')] [])
     = Inl ValueError"
  using py_int_abc
  by (simp add: is_safe_to_download_def headers_get_def response_of_def)

text \<open>
  Claim C10, as amended. When the content type begins with \<^verbatim>\<open>image/\<close> and the content
  length is present, not empty and not the text of an integer, \<^verbatim>\<open>int\<close> raises
  \<^verbatim>\<open>ValueError\<close> and \<open>is_safe_to_download\<close> returns no verdict. In the pipeline the
  exception leaves the body, the handler of line 145 takes it (it is no
  \<^verbatim>\<open>RequestException\<close>), and the function returns \<^verbatim>\<open>False\<close> with the directory as it
  was when the handler's message prints; when that print raises, its exception leaves
  the function.
\<close>

theorem malformed_content_length_raises:
  assumes "prefix ''image/'' (headers_get r ''content-type'' [])"
    and "headers r ''content-length'' = Some cl" and "cl \<noteq> []"
    and "py_int (int_max_str_digits w) cl = None"
  shows "is_safe_to_download w url r = Inl ValueError \<and>
    (py_print w (Processing url) = None \<and> head_probe w url = None \<and>
     requests_get w url = Inr r \<longrightarrow>
       try_body w url d = (Inl ValueError, d) \<and>
       \<not> is_RequestException ValueError \<and> is_Exception ValueError \<and>
       download_single_image w url d =
         (case py_print w (ErrorOccurred ValueError) of
            None \<Rightarrow> (Inr False, d)
          | Some e \<Rightarrow> (Inl e, d)))"
proof -
  have raises: "is_safe_to_download w url r = Inl ValueError"
    using assms by (simp add: is_safe_to_download_def)
  have "try_body w url d = (Inl ValueError, d) \<and>
       \<not> is_RequestException ValueError \<and> is_Exception ValueError \<and>
       download_single_image w url d =
         (case py_print w (ErrorOccurred ValueError) of
            None \<Rightarrow> (Inr False, d)
          | Some e \<Rightarrow> (Inl e, d))"
    if "py_print w (Processing url) = None" and "head_probe w url = None"
      and "requests_get w url = Inr r"
    using that raises
    by (simp add: download_single_image_def try_body_def printing_def is_RequestException_def
        is_Exception_def)
  with raises show ?thesis by blast
qed

theorem malformed_content_length_raises_witness:
  "py_int 4300 ''12 kB'' = None \<and>
   is_safe_to_download (serve (\<lambda>url. Inr (response_of
        [(''content-type'', ''image/png''), (''content-length'', ''12 kB'')] [1, 2, 3])))
      ''https://example.com/test.png''
      (response_of [(''content-type'', ''image/png''), (''content-length'', ''12 kB'')] [1, 2, 3])
     = Inl ValueError \<and>
   download_single_image (serve (\<lambda>url. Inr (response_of
        [(''content-type'', ''image/png''), (''content-length'', ''12 kB'')] [1, 2, 3])))
      ''https://example.com/test.png'' []
     = (Inr False, [])"
proof -
  let ?r = "response_of [(''content-type'', ''image/png''), (''content-length'', ''12 kB'')] [1, 2, 3]"
  let ?w = "serve (\<lambda>url. Inr ?r)" and ?url = "''https://example.com/test.png''"
  have a: "prefix ''image/'' (headers_get ?r ''content-type'' [])"
    by (simp add: headers_get_def response_of_def)
  have b: "headers ?r ''content-length'' = Some ''12 kB''"
    by (simp add: response_of_def)
  have c: "''12 kB'' \<noteq> []" by simp
  have n: "py_int (int_max_str_digits ?w) ''12 kB'' = None"
    by (rule py_int_12_kB)
  have p: "py_print ?w (Processing ?url) = None" by (simp add: serve_def)
  have q: "py_print ?w (ErrorOccurred ValueError) = None" by (simp add: serve_def)
  have h: "head_probe ?w ?url = None" by (simp add: head_probe_def serve_def)
  have g: "requests_get ?w ?url = Inr ?r" by (simp add: serve_def)
  show ?thesis
    using malformed_content_length_raises [OF a b c n, of ?url "[]"] p q h g
      py_int_12_kB [of 4300] by simp
qed

text \<open>
  Claim C10 as stated fails in its last part: the handler prints the message of the
  \<^verbatim>\<open>ValueError\<close>, which quotes the header value, before it returns. On a console that
  cannot encode a character of the value the print raises, and the outcome is that
  exception, not \<^verbatim>\<open>False\<close>.
\<close>

theorem malformed_content_length_counterexample:
  "is_safe_to_download
      (refusing (\<lambda>m. m = ErrorOccurred ValueError) UnicodeEncodeError (serve (\<lambda>url. Inr (response_of
        [(''content-type'', ''image/png''), (''content-length'', ''12'' @ [CHR 0xE9])] [1, 2, 3]))))
      ''https://example.com/test.png''
      (response_of
        [(''content-type'', ''image/png''), (''content-length'', ''12'' @ [CHR 0xE9])] [1, 2, 3])
     = Inl ValueError \<and>
   download_single_image
      (refusing (\<lambda>m. m = ErrorOccurred ValueError) UnicodeEncodeError (serve (\<lambda>url. Inr (response_of
        [(''content-type'', ''image/png''), (''content-length'', ''12'' @ [CHR 0xE9])] [1, 2, 3]))))
      ''https://example.com/test.png'' []
     = (Inl UnicodeEncodeError, [])"
proof -
  let ?r = "response_of
        [(''content-type'', ''image/png''), (''content-length'', ''12'' @ [CHR 0xE9])] [1, 2, 3]"
  let ?w = "refusing (\<lambda>m. m = ErrorOccurred ValueError) UnicodeEncodeError (serve (\<lambda>url. Inr ?r))"
  have raises: "is_safe_to_download ?w ''https://example.com/test.png'' ?r = Inl ValueError"
    using py_int_e_acute [of 4300]
    by (simp add: is_safe_to_download_def headers_get_def response_of_def refusing_def serve_def)
  then have "download_single_image ?w ''https://example.com/test.png'' []
      = (Inl UnicodeEncodeError, [])"
    by (simp add: download_single_image_def try_body_def printing_def head_probe_def
        refusing_def serve_def is_RequestException_def is_Exception_def)
  with raises show ?thesis by simp
qed

section \<open>The pipeline\<close>






text \<open>
  Claim C7, as amended. Every exception of class \<^verbatim>\<open>Exception\<close> that the body of the
  \<^verbatim>\<open>try\<close> raises is taken by a handler of \<open>download_single_image\<close>, which returns
  \<^verbatim>\<open>False\<close> when the handler's own message prints; a failed request is one of them.
  What leaves the function is an exception of the body that is not of class
  \<^verbatim>\<open>Exception\<close>, or the exception that a handler's print raised.
\<close>

theorem exceptions_are_handled:
  "(try_body w url d = (Inl e, d') \<and> is_Exception e \<and>
    py_print w (handler_message e) = None \<longrightarrow>
      download_single_image w url d = (Inr False, d')) \<and>
   (download_single_image w url d = (Inl e, d') \<longrightarrow>
      (\<exists>e0. try_body w url d = (Inl e0, d') \<and>
         (e0 = e \<and> \<not> is_Exception e0 \<or>
          is_Exception e0 \<and> py_print w (handler_message e0) = Some e))) \<and>
   (py_print w (Processing url) = None \<and> head_probe w url = None \<and>
    requests_get w url = Inl e \<and> is_RequestException e \<and>
    py_print w (ConnectionError e) = None \<longrightarrow>
      download_single_image w url d = (Inr False, d))"
proof (intro conjI impI)
  assume "try_body w url d = (Inl e, d') \<and> is_Exception e \<and>
    py_print w (handler_message e) = None"
  then show "download_single_image w url d = (Inr False, d')"
    by (cases "is_RequestException e") (simp_all add: download_single_image_def handler_message_def)
next
  assume a: "download_single_image w url d = (Inl e, d')"
  obtain res d'' where t: "try_body w url d = (res, d'')" by (cases "try_body w url d")
  show "\<exists>e0. try_body w url d = (Inl e0, d') \<and>
         (e0 = e \<and> \<not> is_Exception e0 \<or>
          is_Exception e0 \<and> py_print w (handler_message e0) = Some e)"
  proof (cases res)
    case (Inl e0)
    with a t have "d'' = d' \<and> (e0 = e \<and> \<not> is_Exception e0 \<or>
          is_Exception e0 \<and> py_print w (handler_message e0) = Some e)"
      by (auto simp: download_single_image_def handler_message_def is_RequestException_def
          is_Exception_def split: if_splits option.splits)
    with t Inl show ?thesis by blast
  next
    case (Inr b)
    with a t show ?thesis by (simp add: download_single_image_def)
  qed
next
  assume "py_print w (Processing url) = None \<and> head_probe w url = None \<and>
    requests_get w url = Inl e \<and> is_RequestException e \<and>
    py_print w (ConnectionError e) = None"
  then show "download_single_image w url d = (Inr False, d)"
    by (simp add: download_single_image_def try_body_def printing_def)
qed

theorem exceptions_are_handled_witness:
  "try_body (serve offline) ''https://example.com/test.png'' [] = (Inl RequestException, []) \<and>
   is_Exception RequestException \<and>
   py_print (serve offline) (handler_message RequestException) = None \<and>
   download_single_image (serve offline) ''https://example.com/test.png'' [] = (Inr False, []) \<and>
   download_single_image (serve (\<lambda>url. Inl KeyboardInterrupt)) ''https://example.com/test.png'' []
     = (Inl KeyboardInterrupt, []) \<and>
   try_body (serve (\<lambda>url. Inl KeyboardInterrupt)) ''https://example.com/test.png'' []
     = (Inl KeyboardInterrupt, []) \<and>
   \<not> is_Exception KeyboardInterrupt"
proof -
  let ?url = "''https://example.com/test.png''"
  let ?ki = "serve (\<lambda>url. Inl KeyboardInterrupt)"
  have body: "try_body (serve offline) ?url [] = (Inl RequestException, [])"
    by (simp add: try_body_def printing_def head_probe_def serve_def offline_def)
  have exc: "is_Exception RequestException"
    by (simp add: is_Exception_def)
  have printed: "py_print (serve offline) (handler_message RequestException) = None"
    by (simp add: serve_def)
  have caught: "download_single_image (serve offline) ?url [] = (Inr False, [])"
    using exceptions_are_handled [of "serve offline" ?url "[]" RequestException "[]"]
      body exc printed
    by blast
  have left: "download_single_image ?ki ?url [] = (Inl KeyboardInterrupt, [])"
    by (simp add: download_single_image_def try_body_def printing_def serve_def head_probe_def
        is_RequestException_def is_Exception_def)
  have ki_printed: "py_print ?ki m = None" for m
    by (simp add: serve_def)
  have "\<exists>e0. try_body ?ki ?url [] = (Inl e0, []) \<and>
         (e0 = KeyboardInterrupt \<and> \<not> is_Exception e0 \<or>
          is_Exception e0 \<and> py_print ?ki (handler_message e0) = Some KeyboardInterrupt)"
    using exceptions_are_handled [of ?ki ?url "[]" KeyboardInterrupt "[]"] left
    by blast
  then have "try_body ?ki ?url [] = (Inl KeyboardInterrupt, []) \<and> \<not> is_Exception KeyboardInterrupt"
    using ki_printed by auto
  with body exc printed caught left show ?thesis by simp
qed

text \<open>
  Claim C7 as stated fails: an interrupt raised while the request is under way is not
  of class \<^verbatim>\<open>Exception\<close>, no handler of the function takes it, and it leaves
  \<open>download_single_image\<close>. So does the exception of a handler's print (lines 144
  and 146 stand outside the \<^verbatim>\<open>try\<close>).
\<close>

theorem keyboard_interrupt_counterexample:
  "download_single_image (serve (\<lambda>url. Inl KeyboardInterrupt)) ''https://example.com/a.png'' []
     = (Inl KeyboardInterrupt, []) \<and>
   download_single_image
     (refusing (\<lambda>m. m = ConnectionError RequestException) UnicodeEncodeError (serve offline))
     ''https://example.com/a.png'' []
     = (Inl UnicodeEncodeError, [])"
  by (simp add: download_single_image_def try_body_def printing_def serve_def head_probe_def
      refusing_def offline_def is_RequestException_def is_Exception_def)

section \<open>The file name\<close>

text \<open>
  Claim C4, as amended. The name that lines 124-133 settle on is not a path of the
  directory at that moment. The step reads the directory and changes nothing, so the
  same call made again gives the same name; once a file of that name is written, the
  next call gives another name.
\<close>

theorem resolved_name_is_free:
  assumes "resolve_filename w url r d = Inr name"
  shows "\<not> path_exists d name \<and> name \<notin> set (map fst d) \<and>
    (\<forall>bs name'. resolve_filename w url r (store_file name bs d) = Inr name' \<longrightarrow> name' \<noteq> name)"
proof -
  from assms obtain filename where
    f: "get_filename_from_url w url r = Inr filename" and
    name: "name = handle_filename_conflicts d filename"
    by (auto simp: resolve_filename_def split: sum.splits)
  have free: "\<not> path_exists d name"
    by (simp add: name handle_filename_conflicts_def while_exists_free)
  then have absent: "name \<notin> set (map fst d)"
    by (simp add: path_exists_def)
  have "name' \<noteq> name" if "resolve_filename w url r (store_file name bs d) = Inr name'" for bs name'
  proof -
    from that f have "name' = handle_filename_conflicts (store_file name bs d) filename"
      by (simp add: resolve_filename_def)
    then have "\<not> path_exists (store_file name bs d) name'"
      by (simp add: handle_filename_conflicts_def while_exists_free)
    then show ?thesis using path_exists_store_file [of name bs d] by auto
  qed
  with free absent show ?thesis by blast
qed

theorem resolved_name_is_free_witness:
  "resolve_filename (serve offline) ''https://example.com/test.png''
      (response_of [(''content-type'', ''image/png'')] [1, 2, 3]) [] = Inr ''test.png'' \<and>
   \<not> path_exists [] ''test.png'' \<and>
   resolve_filename (serve offline) ''https://example.com/test.png''
      (response_of [(''content-type'', ''image/png'')] [1, 2, 3])
      (store_file ''test.png'' [1, 2, 3] []) = Inr ''test_1.png'' \<and>
   ''test_1.png'' \<noteq> ''test.png''"
proof -
  let ?r = "response_of [(''content-type'', ''image/png'')] [1, 2, 3]"
  let ?url = "''https://example.com/test.png''"
  have first: "resolve_filename (serve offline) ?url ?r [] = Inr ''test.png''"
    using filename_test_png [of offline ?r]
    by (simp add: resolve_filename_def handle_filename_conflicts_free path_exists_def)
  have second: "resolve_filename (serve offline) ?url ?r (store_file ''test.png'' [1, 2, 3] [])
      = Inr ''test_1.png''"
    using filename_test_png [of offline ?r]
      handle_filename_conflicts_first [of "[(''test.png'', RegularFile [1, 2, 3])]" "''test.png''"]
    by (simp add: resolve_filename_def path_exists_def candidate_test_png)
  from resolved_name_is_free [OF first] second
  have "\<not> path_exists [] ''test.png'' \<and> ''test_1.png'' \<noteq> ''test.png''"
    by blast
  with first second show ?thesis by simp
qed

text \<open>
  Claim C4 as stated fails in its second half: two calls with no write between them
  read the same directory and give the same name.
\<close>

theorem resolve_twice_counterexample:
  "(resolve_filename (serve offline) ''https://example.com/test.png''
      (response_of [(''content-type'', ''image/png'')] [1, 2, 3]) [],
    resolve_filename (serve offline) ''https://example.com/test.png''
      (response_of [(''content-type'', ''image/png'')] [1, 2, 3]) [])
   = (Inr ''test.png'', Inr ''test.png'')"
  using filename_test_png [of offline "response_of [(''content-type'', ''image/png'')] [1, 2, 3]"]
  by (simp add: resolve_filename_def handle_filename_conflicts_free path_exists_def)

text \<open>
  Claim C6. When the name is taken, the loop returns the name with \<^verbatim>\<open>_n\<close> put
  between the two parts that \<^verbatim>\<open>os.path.splitext\<close> gives (the second part is the
  extension), for the least \<open>n\<close> from 1 on whose name is free. So a second
  \<^verbatim>\<open>image.jpg\<close> becomes \<^verbatim>\<open>image_1.jpg\<close> when that name is free. (A name whose only
  dots come first, such as \<^verbatim>\<open>.png\<close>, has no extension for \<^verbatim>\<open>splitext\<close>: there the
  counter comes last.)
\<close>

theorem conflict_gets_smallest_free_counter:
  assumes "path_exists d filename"
  shows "(\<exists>n\<ge>1. handle_filename_conflicts d filename =
             fst (splitext filename) @ ''_'' @ str_nat n @ snd (splitext filename) \<and>
           \<not> path_exists d (candidate filename n) \<and>
           (\<forall>k. 1 \<le> k \<and> k < n \<longrightarrow> path_exists d (candidate filename k))) \<and>
         fst (splitext filename) @ snd (splitext filename) = filename \<and>
         (filename = ''image.jpg'' \<and> \<not> path_exists d ''image_1.jpg'' \<longrightarrow>
            handle_filename_conflicts d filename = ''image_1.jpg'')"
proof -
  from while_exists_smallest [OF assms, of 1 filename] obtain n where
    "1 \<le> n" "handle_filename_conflicts d filename = candidate filename n"
    "\<not> path_exists d (candidate filename n)"
    "\<forall>k. 1 \<le> k \<and> k < n \<longrightarrow> path_exists d (candidate filename k)"
    by (auto simp: handle_filename_conflicts_def)
  moreover have "candidate filename n =
      fst (splitext filename) @ ''_'' @ str_nat n @ snd (splitext filename)"
    by (cases "splitext filename") (simp add: candidate_def)
  ultimately have least: "\<exists>n\<ge>1. handle_filename_conflicts d filename =
             fst (splitext filename) @ ''_'' @ str_nat n @ snd (splitext filename) \<and>
           \<not> path_exists d (candidate filename n) \<and>
           (\<forall>k. 1 \<le> k \<and> k < n \<longrightarrow> path_exists d (candidate filename k))"
    by auto
  have "handle_filename_conflicts d filename = ''image_1.jpg''"
    if "filename = ''image.jpg''" and "\<not> path_exists d ''image_1.jpg''"
    using that assms handle_filename_conflicts_first [of d filename]
    by (simp add: candidate_image_jpg)
  with least splitext_append [of filename] show ?thesis by blast
qed

theorem conflict_gets_smallest_free_counter_witness:
  "path_exists [(''image.jpg'', RegularFile [1])] ''image.jpg'' \<and>
   handle_filename_conflicts [(''image.jpg'', RegularFile [1])] ''image.jpg'' = ''image_1.jpg'' \<and>
   download_single_image (serve two_sites) ''https://b.example/image.jpg''
       [(''image.jpg'', RegularFile [1])]
     = (Inr True, [(''image.jpg'', RegularFile [1]), (''image_1.jpg'', RegularFile [2])])"
proof -
  let ?d = "[(''image.jpg'', RegularFile [1])] :: directory"
  have taken: "path_exists ?d ''image.jpg''"
    by (simp add: path_exists_def)
  have free: "\<not> path_exists ?d ''image_1.jpg''"
    by (simp add: path_exists_def)
  have name: "handle_filename_conflicts ?d ''image.jpg'' = ''image_1.jpg''"
    using conflict_gets_smallest_free_counter [OF taken] free by simp
  have "download_single_image (serve two_sites) ''https://b.example/image.jpg'' ?d
     = (Inr True, [(''image.jpg'', RegularFile [1]), (''image_1.jpg'', RegularFile [2])])"
    using safe_jpeg [of two_sites "[2]"] second_is_new [of two_sites]
      filename_image_jpg [of two_sites "response_of [(''content-type'', ''image/jpeg'')] [2]"]
    by (simp add: download_single_image_def try_body_def printing_def resolve_filename_def name
        head_probe_def two_sites_def response_of_def serve_def)
  with taken name show ?thesis by simp
qed

text \<open>
  What does hold of the name that \<open>get_filename_from_url\<close> returns: it is a stem of
  safe characters, with the extension of the content type appended when the stem has no
  dot. So it has only safe characters when the MIME table's extension has, and it has a
  dot when that extension has one.
\<close>

lemma set_strip_chars: "set (strip_chars p s) \<subseteq> set s"
proof -
  have "set (dropWhile p (rev (dropWhile p s))) \<subseteq> set (rev (dropWhile p s))"
    by (auto dest: set_dropWhileD)
  also have "\<dots> \<subseteq> set s"
    by (auto dest: set_dropWhileD)
  finally show ?thesis by (simp add: strip_chars_def)
qed

lemma filename_shape:
  assumes "get_filename_from_url w url r = Inr name"
  shows "\<exists>stem. set stem \<subseteq> set safe_chars \<and>
           name = (if CHR ''.'' \<notin> set stem then stem @ content_type_extension w r else stem)"
proof -
  from assms obtain path where "urlparse_path w url = Some path"
    by (auto simp: get_filename_from_url_def split: option.splits)
  with assms obtain g where
    "name = (if CHR ''.'' \<notin> set (py_strip (filter (\<lambda>c. c \<in> set safe_chars) g))
             then py_strip (filter (\<lambda>c. c \<in> set safe_chars) g) @ content_type_extension w r
             else py_strip (filter (\<lambda>c. c \<in> set safe_chars) g))"
    by (auto simp: get_filename_from_url_def Let_def)
  moreover have "set (py_strip (filter (\<lambda>c. c \<in> set safe_chars) g)) \<subseteq> set safe_chars"
    using set_strip_chars [of py_isspace "filter (\<lambda>c. c \<in> set safe_chars) g"]
    by (auto simp: py_strip_def)
  ultimately show ?thesis by blast
qed

lemma filename_safe_chars:
  assumes "get_filename_from_url w url r = Inr name"
    and "set (content_type_extension w r) \<subseteq> set safe_chars"
  shows "set name \<subseteq> set safe_chars"
  using filename_shape [OF assms(1)] assms(2) by (auto split: if_splits)

lemma filename_has_dot:
  assumes "get_filename_from_url w url r = Inr name"
    and "CHR ''.'' \<in> set (content_type_extension w r)"
  shows "CHR ''.'' \<in> set name"
  using filename_shape [OF assms(1)] assms(2) by (auto split: if_splits)

text \<open>
  Claim C5 fails on the code. The source tests for a dot (lines 67, 73, 84) where its
  comments speak of an extension, so a name that ends in a dot passes every test and is
  returned with nothing after the dot.
\<close>

theorem trailing_dot_name_has_no_extension:
  "get_filename_from_url (serve offline) ''https://example.com/photo.''
     (response_of [(''content-type'', ''image/png'')] [1, 2, 3]) = Inr ''photo.''"
  by (simp add: get_filename_from_url_def serve_def example_path_photo basename_def
      lacks_extension_def split_first_def safe_chars_def py_strip_def strip_chars_def
      py_isspace_def)

end
